theory Spec2Isabelle
  imports Main "HOL-Library.Sublist" "HOL-Library.Monad_Syntax"
begin

section \<open>The JavaScript runtime functions the insight pipeline calls\<close>

text \<open>
  The pipeline of \<^verbatim>\<open>src/App.tsx\<close> (\<^verbatim>\<open>inferSeverity\<close>, \<^verbatim>\<open>toBattleCard\<close>, the
  \<^verbatim>\<open>filtered\<close> and \<^verbatim>\<open>markdown\<close> memos, \<^verbatim>\<open>curate\<close>) is built from string and
  array methods of the runtime. Text is a \<^typ>\<open>string\<close>: a list of 8-bit characters,
  read as UTF-8.

  \<^verbatim>\<open>String.prototype.toLowerCase\<close> and \<^verbatim>\<open>String.prototype.trim\<close> work on all of
  Unicode (U+0130 folds to \<^verbatim>\<open>i\<close> and U+0307, U+00A0 is white space). They are not
  defined here: they are the two fields of a record \<open>rt\<close> that every function calling
  them takes, and what is proved holds for whatever functions the runtime supplies.
\<close>

record runtime =
  toLowerCase :: "string \<Rightarrow> string"
  trim :: "string \<Rightarrow> string"

text \<open>
  What one theorem below asks of \<^verbatim>\<open>toLowerCase\<close>: a run of ASCII characters is
  folded where it stands, \<^verbatim>\<open>A\<close>..\<^verbatim>\<open>Z\<close> to \<^verbatim>\<open>a\<close>..\<^verbatim>\<open>z\<close> and every other ASCII
  character to itself, whatever surrounds the run.
\<close>

definition asciiLowerChar :: "char \<Rightarrow> char" where
  "asciiLowerChar c =
     (let n = (of_char c :: nat) in if 65 \<le> n \<and> n \<le> 90 then char_of (n + 32) else c)"

definition foldsAscii :: "(string \<Rightarrow> string) \<Rightarrow> bool" where
  "foldsAscii lower =
     (\<forall>a u b. (\<forall>c\<in>set u. (of_char c :: nat) < 128)
        \<longrightarrow> sublist (map asciiLowerChar u) (lower (a @ u @ b)))"

text \<open>\<^verbatim>\<open>xs.join(sep)\<close>: the elements with the separator between neighbours.\<close>

fun join :: "string \<Rightarrow> string list \<Rightarrow> string" where
  "join sep [] = []"
| "join sep [x] = x"
| "join sep (x # y # ys) = x @ sep @ join sep (y # ys)"

text \<open>
  \<^verbatim>\<open>s.includes(q)\<close> on strings: \<open>q\<close> occurs in \<open>s\<close> as a contiguous run (the empty
  string occurs everywhere). A regular expression that is an alternation of literals,
  tested unanchored, is a disjunction of such tests.
\<close>

definition includesStr :: "string \<Rightarrow> string \<Rightarrow> bool" where
  "includesStr s q = sublist q s"

text \<open>\<^verbatim>\<open>xs.includes(x)\<close> on an array of strings: some element equals \<open>x\<close>.\<close>

definition includesArr :: "string list \<Rightarrow> string \<Rightarrow> bool" where
  "includesArr xs x = (x \<in> set xs)"

text \<open>\<^verbatim>\<open>xs.unshift(x)\<close> puts \<open>x\<close> in front; the value here is the array afterwards.\<close>

definition unshift :: "'a \<Rightarrow> 'a list \<Rightarrow> 'a list" where
  "unshift x xs = x # xs"

text \<open>
  Numbers as the range filter meets them: a time value in milliseconds (an integer),
  \<^verbatim>\<open>NaN\<close> for an invalid date, and the two infinities of the open bounds. Every
  comparison with \<^verbatim>\<open>NaN\<close> is false.
\<close>

datatype jsnum = NaN | NegInfinity | Finite int | Infinity

fun jsLe :: "jsnum \<Rightarrow> jsnum \<Rightarrow> bool" where
  "jsLe NaN _ = False"
| "jsLe _ NaN = False"
| "jsLe NegInfinity _ = True"
| "jsLe _ Infinity = True"
| "jsLe (Finite a) (Finite b) = (a \<le> b)"
| "jsLe _ _ = False"

definition jsGe :: "jsnum \<Rightarrow> jsnum \<Rightarrow> bool" where
  "jsGe a b = jsLe b a"

text \<open>
  \<^verbatim>\<open>new Date(s).getTime()\<close>. The runtime's date parser is a parameter \<open>parse\<close> of
  the model: \<open>parse s\<close> is the time value of \<open>s\<close>, or \<open>None\<close> where the runtime
  answers Invalid Date. In the same way \<open>localeString d\<close> stands for
  \<^verbatim>\<open>new Date(d).toLocaleString()\<close>, which depends on the host's locale and time zone.
\<close>

definition getTime :: "(string \<Rightarrow> int option) \<Rightarrow> string \<Rightarrow> jsnum" where
  "getTime parse s = (case parse s of None \<Rightarrow> NaN | Some ms \<Rightarrow> Finite ms)"

text \<open>The two characters outside ASCII that the templates contain, in UTF-8.\<close>

definition bullet :: string where
  "bullet = [CHR 0xE2, CHR 0x80, CHR 0xA2]"



section \<open>Data model\<close>

text \<open>
  An insight as \<^verbatim>\<open>toBattleCard\<close>'s parameter type and the seed data have it. The type
  of the \<^verbatim>\<open>tags\<close> field is a parameter: a list of strings where the functions are read
  as functions on values, an address where arrays live in a store. The optional
  chaining on \<^verbatim>\<open>title\<close> and \<^verbatim>\<open>summary\<close> in the filter guards against records that
  lack these fields; here every field is present.
\<close>

record 'tg insight =
  i_id :: string
  i_competitor :: string
  i_title :: string
  i_summary :: string
  i_sourceName :: string
  i_sourceUrl :: string
  i_date :: string
  i_tags :: 'tg

record ('cs, 'tg) battleCard =
  c_headline :: string
  c_impact :: string
  c_proof :: string
  c_counters :: 'cs
  c_link :: string
  c_tags :: 'tg

text \<open>A curated card: \<^verbatim>\<open>{ id, competitor, ...toBattleCard(i) }\<close>.\<close>

record ('cs, 'tg) curatedCard = "('cs, 'tg) battleCard" +
  c_id :: string
  c_competitor :: string

type_synonym insightV = "string list insight"
type_synonym battleCardV = "(string list, string list) battleCard"
type_synonym curatedCardV = "(string list, string list) curatedCard"

datatype severity = Critical | Watch | Info


section \<open>Severity\<close>

definition inferSeverity :: "runtime \<Rightarrow> string list \<Rightarrow> severity" where
  "inferSeverity rt tags =
     (let t = toLowerCase rt (join '' '' tags) in
      if includesStr t ''pricing'' \<or> includesStr t ''price'' \<or> includesStr t ''bundle''
      then Critical
      else if includesStr t ''ai'' \<or> includesStr t ''e-bidding'' \<or> includesStr t ''e-bidding''
              \<or> includesStr t ''integration''
      then Watch
      else Info)"


section \<open>Battle cards\<close>

text \<open>The string literals of \<^verbatim>\<open>toBattleCard\<close>.\<close>

definition impactDefault :: string where
  "impactDefault = ''Raises buyer expectations for analytics clarity and workflow fit.''"

definition impactAI :: string where
  "impactAI = ''Shifts narrative to AI-assist; raises bar for search and self-serve answers.''"

definition baseCounters :: "string list" where
  "baseCounters =
     [''Emphasize time-to-value with prebuilt scorecards & fast onboarding.'',
      ''Show integration depth (RFP/award, APIs, export) with demos.'',
      ''Publish TCO story vs. bundle pricing.'']"

definition counterAI :: string where
  "counterAI = ''Demo AI explainability and guardrails for regulated buyers.''"

definition counterPricing :: string where
  "counterPricing = ''Offer side-by-side TCO with transparent tiers.''"

definition counterEbidding :: string where
  "counterEbidding = ''Position eligibility checks at invite/award as buyer efficiency.''"

text \<open>
  \<^verbatim>\<open>toBattleCard\<close> read as a function on values: the local object \<^verbatim>\<open>base\<close> is
  passed from one conditional to the next.
\<close>

definition toBattleCard :: "(string \<Rightarrow> string) \<Rightarrow> insightV \<Rightarrow> battleCardV" where
  "toBattleCard localeString insight =
     (let base0 = \<lparr>c_headline = i_competitor insight @ '': '' @ i_title insight,
                   c_impact = impactDefault,
                   c_proof = ''Source: '' @ i_sourceName insight @ '' '' @ bullet @ '' ''
                               @ localeString (i_date insight),
                   c_counters = baseCounters,
                   c_link = i_sourceUrl insight,
                   c_tags = i_tags insight\<rparr>;
          base1 = (if includesArr (i_tags insight) ''AI''
                   then base0\<lparr>c_impact := impactAI,
                              c_counters := unshift counterAI (c_counters base0)\<rparr>
                   else base0);
          base2 = (if includesArr (i_tags insight) ''Pricing''
                   then base1\<lparr>c_counters := unshift counterPricing (c_counters base1)\<rparr>
                   else base1);
          base3 = (if includesArr (i_tags insight) ''E-bidding''
                   then base2\<lparr>c_counters := unshift counterEbidding (c_counters base2)\<rparr>
                   else base2)
      in base3)"


section \<open>Filter\<close>

text \<open>
  The arrow function that \<^verbatim>\<open>insights.filter\<close> is given, with the values it closes
  over (\<^verbatim>\<open>start\<close>, \<^verbatim>\<open>end\<close>, \<^verbatim>\<open>competitor\<close>, \<^verbatim>\<open>q\<close>) as arguments.
\<close>

definition keepInsight ::
  "runtime \<Rightarrow> (string \<Rightarrow> int option) \<Rightarrow> jsnum \<Rightarrow> jsnum \<Rightarrow> string \<Rightarrow> string \<Rightarrow> insightV \<Rightarrow> bool" where
  "keepInsight rt parse start end competitor q i =
     (let t = getTime parse (i_date i);
          inRange = (jsGe t start \<and> jsLe t end);
          byComp = (competitor = ''All'' \<or> i_competitor i = competitor);
          byQuery = (q = [] \<or> includesStr (toLowerCase rt (i_title i)) q
                     \<or> includesStr (toLowerCase rt (i_summary i)) q
                     \<or> includesStr (toLowerCase rt (join '' '' (i_tags i))) q)
      in inRange \<and> byComp \<and> byQuery)"

text \<open>
  The \<^verbatim>\<open>filtered\<close> memo, a function of its dependencies. The bounds \<open>from\<close> and
  \<open>to\<close> are the strings of the two date inputs; the empty string is the absent
  bound.
\<close>

definition filtered ::
  "runtime \<Rightarrow> (string \<Rightarrow> int option) \<Rightarrow> insightV list \<Rightarrow> string \<Rightarrow> string \<Rightarrow> string \<Rightarrow> string
     \<Rightarrow> insightV list" where
  "filtered rt parse insights from to competitor query =
     (let start = (if from \<noteq> [] then getTime parse from else NegInfinity);
          end = (if to \<noteq> [] then getTime parse to else Infinity);
          q = toLowerCase rt (trim rt query)
      in filter (keepInsight rt parse start end competitor q) insights)"


section \<open>Digest\<close>




section \<open>Curation\<close>

text \<open>
  \<^verbatim>\<open>curate\<close> as the transition it applies to the curated list: the new card in
  front of the previous cards whose id differs.
\<close>

definition curate ::
  "(string \<Rightarrow> string) \<Rightarrow> insightV \<Rightarrow> curatedCardV list \<Rightarrow> curatedCardV list" where
  "curate localeString i prev =
     (let c = battleCard.extend (toBattleCard localeString i)
                (curatedCard.fields (i_id i) (i_competitor i))
      in c # filter (\<lambda>x. c_id x \<noteq> c_id c) prev)"

section \<open>Objects and arrays in a store\<close>

text \<open>
  \<^verbatim>\<open>toBattleCard\<close> builds its card by mutation (\<^verbatim>\<open>base.impact = ...\<close>,
  \<^verbatim>\<open>base.counters.unshift(...)\<close>) and hands the insight's \<^verbatim>\<open>tags\<close> array on by
  reference. To say what a call writes, objects and arrays live in a store: a list of
  cells, an address being an index. Allocation appends a cell. A read that finds no
  cell, or a cell of another kind, is the \<^verbatim>\<open>TypeError\<close> of a property access on
  \<^verbatim>\<open>undefined\<close>: the result \<open>None\<close>.
\<close>

type_synonym addr = nat

datatype cell =
    InsightCell "addr insight"
  | CardCell "(addr, addr) battleCard"
  | StrArrayCell "string list"
  | RefArrayCell "addr list"

type_synonym heap = "cell list"

definition readCell :: "heap \<Rightarrow> addr \<Rightarrow> cell option" where
  "readCell h a = (if a < length h then Some (h ! a) else None)"

definition alloc :: "heap \<Rightarrow> cell \<Rightarrow> addr \<times> heap" where
  "alloc h c = (length h, h @ [c])"

definition writeCell :: "heap \<Rightarrow> addr \<Rightarrow> cell \<Rightarrow> heap" where
  "writeCell h a c = h[a := c]"

definition readInsight :: "heap \<Rightarrow> addr \<Rightarrow> addr insight option" where
  "readInsight h a = (case readCell h a of Some (InsightCell i) \<Rightarrow> Some i | _ \<Rightarrow> None)"

definition readCard :: "heap \<Rightarrow> addr \<Rightarrow> (addr, addr) battleCard option" where
  "readCard h a = (case readCell h a of Some (CardCell c) \<Rightarrow> Some c | _ \<Rightarrow> None)"

definition readStrArray :: "heap \<Rightarrow> addr \<Rightarrow> string list option" where
  "readStrArray h a = (case readCell h a of Some (StrArrayCell xs) \<Rightarrow> Some xs | _ \<Rightarrow> None)"

definition readRefArray :: "heap \<Rightarrow> addr \<Rightarrow> addr list option" where
  "readRefArray h a = (case readCell h a of Some (RefArrayCell xs) \<Rightarrow> Some xs | _ \<Rightarrow> None)"

text \<open>\<^verbatim>\<open>insight.tags.includes(x)\<close>\<close>

definition tagsInclude :: "heap \<Rightarrow> addr \<Rightarrow> string \<Rightarrow> bool option" where
  "tagsInclude h insight x = do {
     ins \<leftarrow> readInsight h insight;
     ts \<leftarrow> readStrArray h (i_tags ins);
     Some (includesArr ts x)
   }"

text \<open>\<^verbatim>\<open>base.impact = s\<close>\<close>

definition setImpact :: "heap \<Rightarrow> addr \<Rightarrow> string \<Rightarrow> heap option" where
  "setImpact h base s = do {
     bc \<leftarrow> readCard h base;
     Some (writeCell h base (CardCell (bc\<lparr>c_impact := s\<rparr>)))
   }"

text \<open>\<^verbatim>\<open>base.counters.unshift(x)\<close>\<close>

definition unshiftCounters :: "heap \<Rightarrow> addr \<Rightarrow> string \<Rightarrow> heap option" where
  "unshiftCounters h base x = do {
     bc \<leftarrow> readCard h base;
     cs \<leftarrow> readStrArray h (c_counters bc);
     Some (writeCell h (c_counters bc) (StrArrayCell (unshift x cs)))
   }"

text \<open>
  \<^verbatim>\<open>toBattleCard\<close> in the store: the array literal and the object literal are new
  cells, the card's \<^verbatim>\<open>tags\<close> is the insight's own array, and each conditional reads
  the insight's tags in the store as it then is.
\<close>

definition toBattleCard_st ::
  "(string \<Rightarrow> string) \<Rightarrow> heap \<Rightarrow> addr \<Rightarrow> (addr \<times> heap) option" where
  "toBattleCard_st localeString h insight = do {
     ins \<leftarrow> readInsight h insight;
     let (counters, h1) = alloc h (StrArrayCell baseCounters);
     let (base, h2) = alloc h1 (CardCell
           \<lparr>c_headline = i_competitor ins @ '': '' @ i_title ins,
            c_impact = impactDefault,
            c_proof = ''Source: '' @ i_sourceName ins @ '' '' @ bullet @ '' ''
                        @ localeString (i_date ins),
            c_counters = counters,
            c_link = i_sourceUrl ins,
            c_tags = i_tags ins\<rparr>);
     ai \<leftarrow> tagsInclude h2 insight ''AI'';
     h3 \<leftarrow> (if ai then do { h' \<leftarrow> setImpact h2 base impactAI;
                              unshiftCounters h' base counterAI }
            else Some h2);
     pricing \<leftarrow> tagsInclude h3 insight ''Pricing'';
     h4 \<leftarrow> (if pricing then unshiftCounters h3 base counterPricing else Some h3);
     ebidding \<leftarrow> tagsInclude h4 insight ''E-bidding'';
     h5 \<leftarrow> (if ebidding then unshiftCounters h4 base counterEbidding else Some h4);
     Some (base, h5)
   }"

text \<open>An insight object of the store with its tags array read out.\<close>

definition viewOf :: "addr insight \<Rightarrow> string list \<Rightarrow> insightV" where
  "viewOf ins ts =
     \<lparr>i_id = i_id ins, i_competitor = i_competitor ins, i_title = i_title ins,
      i_summary = i_summary ins, i_sourceName = i_sourceName ins,
      i_sourceUrl = i_sourceUrl ins, i_date = i_date ins, i_tags = ts\<rparr>"

text \<open>
  The \<^verbatim>\<open>filtered\<close> memo in the store. The callback reads the insight at an address;
  \<^verbatim>\<open>(i.tags||[])\<close> takes the empty array where the tags are missing. The result of
  \<^verbatim>\<open>filter\<close> is a new array of the addresses kept.
\<close>

definition keepInsight_st ::
  "runtime \<Rightarrow> (string \<Rightarrow> int option) \<Rightarrow> heap \<Rightarrow> jsnum \<Rightarrow> jsnum \<Rightarrow> string \<Rightarrow> string \<Rightarrow> addr
     \<Rightarrow> bool option" where
  "keepInsight_st rt parse h start end competitor q a = do {
     ins \<leftarrow> readInsight h a;
     let tags = (case readStrArray h (i_tags ins) of Some ts \<Rightarrow> ts | None \<Rightarrow> []);
     Some (keepInsight rt parse start end competitor q (viewOf ins tags))
   }"

fun filterArr :: "(addr \<Rightarrow> bool option) \<Rightarrow> addr list \<Rightarrow> addr list option" where
  "filterArr f [] = Some []"
| "filterArr f (x # xs) = do {
     b \<leftarrow> f x;
     ys \<leftarrow> filterArr f xs;
     Some (if b then x # ys else ys)
   }"

definition filtered_st ::
  "runtime \<Rightarrow> (string \<Rightarrow> int option) \<Rightarrow> heap \<Rightarrow> addr \<Rightarrow> string \<Rightarrow> string \<Rightarrow> string \<Rightarrow> string
     \<Rightarrow> (addr \<times> heap) option" where
  "filtered_st rt parse h insights from to competitor query = do {
     refs \<leftarrow> readRefArray h insights;
     let start = (if from \<noteq> [] then getTime parse from else NegInfinity);
     let end = (if to \<noteq> [] then getTime parse to else Infinity);
     let q = toLowerCase rt (trim rt query);
     kept \<leftarrow> filterArr (keepInsight_st rt parse h start end competitor q) refs;
     Some (alloc h (RefArrayCell kept))
   }"

text \<open>What an address denotes: the insight, or the card, with its arrays read out.\<close>

definition insightView :: "heap \<Rightarrow> addr \<Rightarrow> insightV option" where
  "insightView h a = do {
     ins \<leftarrow> readInsight h a;
     ts \<leftarrow> readStrArray h (i_tags ins);
     Some (viewOf ins ts)
   }"

definition cardView :: "heap \<Rightarrow> addr \<Rightarrow> battleCardV option" where
  "cardView h a = do {
     bc \<leftarrow> readCard h a;
     cs \<leftarrow> readStrArray h (c_counters bc);
     ts \<leftarrow> readStrArray h (c_tags bc);
     Some \<lparr>c_headline = c_headline bc, c_impact = c_impact bc, c_proof = c_proof bc,
           c_counters = cs, c_link = c_link bc, c_tags = ts\<rparr>
   }"


section \<open>The filter contract in the specification's words\<close>

text \<open>
  The three predicates of the filter as the specification words them, over optional
  date bounds (\<open>None\<close> is the absent bound). They are compared with \<^const>\<open>filtered\<close>
  below. A record whose date has no time value lies in no range.
\<close>

definition spec_inRange :: "int option \<Rightarrow> int option \<Rightarrow> int \<Rightarrow> bool" where
  "spec_inRange fromDate toDate t =
     ((case fromDate of None \<Rightarrow> True | Some lo \<Rightarrow> lo \<le> t)
      \<and> (case toDate of None \<Rightarrow> True | Some hi \<Rightarrow> t \<le> hi))"

definition spec_byCompetitor :: "string \<Rightarrow> insightV \<Rightarrow> bool" where
  "spec_byCompetitor competitor i = (competitor = ''All'' \<or> i_competitor i = competitor)"

definition spec_byQuery :: "runtime \<Rightarrow> string \<Rightarrow> insightV \<Rightarrow> bool" where
  "spec_byQuery rt query i =
     (query = []
      \<or> sublist (toLowerCase rt query) (toLowerCase rt (i_title i))
      \<or> sublist (toLowerCase rt query) (toLowerCase rt (i_summary i))
      \<or> sublist (toLowerCase rt query) (toLowerCase rt (join '' '' (i_tags i))))"

definition spec_filter ::
  "runtime \<Rightarrow> (string \<Rightarrow> int option) \<Rightarrow> insightV list \<Rightarrow> string \<Rightarrow> string \<Rightarrow> int option \<Rightarrow> int option
     \<Rightarrow> insightV list" where
  "spec_filter rt parse insights query competitor fromDate toDate =
     filter (\<lambda>i. (case parse (i_date i) of None \<Rightarrow> False
                                          | Some t \<Rightarrow> spec_inRange fromDate toDate t)
                  \<and> spec_byCompetitor competitor i \<and> spec_byQuery rt query i) insights"

text \<open>The optional date that a bound string of the two date inputs stands for.\<close>

definition spec_bound :: "(string \<Rightarrow> int option) \<Rightarrow> string \<Rightarrow> int option" where
  "spec_bound parse s = (if s = [] then None else parse s)"


section \<open>Sample data\<close>

text \<open>
  A date parser that knows three strings, with the time values the runtime gives them
  (milliseconds since the epoch, UTC), and answers Invalid Date to every other string.
\<close>

definition sampleParse :: "string \<Rightarrow> int option" where
  "sampleParse = map_of [(''2024-01-01'', 1704067200000),
                         (''2024-01-15T12:00:00.000Z'', 1705320000000),
                         (''2024-02-01'', 1706745600000)]"

definition sampleInsight :: insightV where
  "sampleInsight = \<lparr>i_id = ''i5'', i_competitor = ''ISNetworld'',
     i_title = ''CultureSight'', i_summary = ''Perception-and-climate'',
     i_sourceName = ''Product Notes'', i_sourceUrl = ''https://example.com/isn-culturesight'',
     i_date = ''2024-01-15T12:00:00.000Z'', i_tags = [''Safety'', ''Survey'', ''SIF'']\<rparr>"

definition plainInsight :: insightV where
  "plainInsight = \<lparr>i_id = ''i6'', i_competitor = ''Avetta'',
     i_title = ''Update'', i_summary = ''Details'',
     i_sourceName = ''Company Blog'', i_sourceUrl = ''https://example.com/avetta-blog'',
     i_date = ''2024-01-15T12:00:00.000Z'', i_tags = [''Safety'']\<rparr>"

text \<open>
  A runtime for the worked examples. On a string of ASCII characters its two functions
  return what \<^verbatim>\<open>String.prototype.toLowerCase\<close> and \<^verbatim>\<open>String.prototype.trim\<close>
  return (the ASCII white space being TAB, LF, VT, FF, CR and SPACE); the examples
  call them on ASCII strings only.
\<close>

definition asciiToLowerCase :: "string \<Rightarrow> string" where
  "asciiToLowerCase s = map asciiLowerChar s"

definition asciiWhiteSpace :: "char \<Rightarrow> bool" where
  "asciiWhiteSpace c = (let n = (of_char c :: nat) in (9 \<le> n \<and> n \<le> 13) \<or> n = 32)"

definition asciiTrim :: "string \<Rightarrow> string" where
  "asciiTrim s = rev (dropWhile asciiWhiteSpace (rev (dropWhile asciiWhiteSpace s)))"

definition asciiRuntime :: runtime where
  "asciiRuntime = \<lparr>toLowerCase = asciiToLowerCase, trim = asciiTrim\<rparr>"

text \<open>
  A store with two insight objects that are equal field by field, each with a tags
  array of its own, and the array of the two.
\<close>

definition sampleObject :: "addr \<Rightarrow> addr insight" where
  "sampleObject tagsAddr = \<lparr>i_id = ''i2'', i_competitor = ''Avetta'',
     i_title = ''AskAva 2.0'', i_summary = ''Natural-language search'',
     i_sourceName = ''Company Blog'', i_sourceUrl = ''https://example.com/avetta-blog'',
     i_date = ''2024-01-15T12:00:00.000Z'', i_tags = tagsAddr\<rparr>"

definition sampleHeap :: heap where
  "sampleHeap = [StrArrayCell [''AI'', ''Pricing''], InsightCell (sampleObject 0),
                 StrArrayCell [''AI'', ''Pricing''], InsightCell (sampleObject 2),
                 RefArrayCell [1, 3]]"


section \<open>Strings and arrays: auxiliary facts\<close>

lemma sublist_join: "t \<in> set tags \<Longrightarrow> sublist t (join sep tags)"
proof (induction sep tags rule: join.induct)
  case (1 sep)
  then show ?case by simp
next
  case (2 sep x)
  then show ?case by simp
next
  case (3 sep x y ys)
  show ?case
  proof (cases "t = x")
    case True
    then show ?thesis by simp
  next
    case False
    with 3 have "sublist t (join sep (y # ys))" by simp
    then obtain ps ss where "join sep (y # ys) = ps @ t @ ss"
      by (auto simp: sublist_def)
    then have "join sep (x # y # ys) = (x @ sep @ ps) @ t @ ss" by simp
    then show ?thesis unfolding sublist_def by blast
  qed
qed

lemma sublist_chain: "sublist a b \<Longrightarrow> sublist b c \<Longrightarrow> sublist a c"
  unfolding sublist_def by (metis append.assoc)

lemma foldsAscii_asciiToLowerCase: "foldsAscii asciiToLowerCase"
  unfolding foldsAscii_def asciiToLowerCase_def by simp

lemma asciiLowerChar_ascii:
  "(of_char (asciiLowerChar c) :: nat) < 128 \<Longrightarrow> (of_char c :: nat) < 128"
  by (auto simp: asciiLowerChar_def Let_def split: if_splits)

lemma foldsAscii_join:
  assumes "foldsAscii lower" and "t \<in> set tags" and "sublist u t"
    and "\<forall>c\<in>set u. (of_char c :: nat) < 128"
  shows "sublist (map asciiLowerChar u) (lower (join sep tags))"
proof -
  from assms(3) sublist_join[OF assms(2)] have "sublist u (join sep tags)"
    by (rule sublist_chain)
  then obtain a b where "join sep tags = a @ u @ b"
    by (auto simp: sublist_def)
  with assms(1,4) show ?thesis
    by (simp add: foldsAscii_def)
qed

lemma jsLe_NaN_right [simp]: "jsLe x NaN = False"
  by (cases x) simp_all

lemma keepInsight_NaN_start [simp]: "keepInsight rt parse NaN e c q i = False"
  by (simp add: keepInsight_def Let_def jsGe_def)

lemma keepInsight_NaN_end [simp]: "keepInsight rt parse s NaN c q i = False"
  by (simp add: keepInsight_def Let_def jsGe_def)

lemma keepInsight_spec:
  assumes "toLowerCase rt [] = []"
    and "start = (case lo of None \<Rightarrow> NegInfinity | Some l \<Rightarrow> Finite l)"
    and "end = (case hi of None \<Rightarrow> Infinity | Some u \<Rightarrow> Finite u)"
  shows "keepInsight rt parse start end competitor (toLowerCase rt query) i
     = ((case parse (i_date i) of None \<Rightarrow> False | Some t \<Rightarrow> spec_inRange lo hi t)
        \<and> spec_byCompetitor competitor i \<and> spec_byQuery rt query i)"
proof -
  have q: "(toLowerCase rt query = []
            \<or> includesStr (toLowerCase rt (i_title i)) (toLowerCase rt query)
            \<or> includesStr (toLowerCase rt (i_summary i)) (toLowerCase rt query)
            \<or> includesStr (toLowerCase rt (join '' '' (i_tags i))) (toLowerCase rt query))
           = spec_byQuery rt query i"
    using assms(1) by (cases "toLowerCase rt query = []")
      (auto simp: spec_byQuery_def includesStr_def)
  have r: "(jsGe (getTime parse (i_date i)) start \<and> jsLe (getTime parse (i_date i)) end)
           = (case parse (i_date i) of None \<Rightarrow> False | Some t \<Rightarrow> spec_inRange lo hi t)"
    using assms(2,3)
    by (auto simp: getTime_def jsGe_def spec_inRange_def split: option.splits)
  show ?thesis
    unfolding keepInsight_def Let_def q r by (simp add: spec_byCompetitor_def)
qed

lemma c_id_curated [simp]:
  "c_id (battleCard.extend b (curatedCard.fields k c)) = k"
  by (simp add: battleCard.defs curatedCard.defs)

lemma curate_filter_own_id:
  "filter (\<lambda>x. c_id x = i_id j) (curate ls j p)
     = [battleCard.extend (toBattleCard ls j) (curatedCard.fields (i_id j) (i_competitor j))]"
  by (simp add: curate_def Let_def)

lemma c_tags_toBattleCard [simp]: "c_tags (toBattleCard ls v) = i_tags v"
  by (simp add: toBattleCard_def Let_def)


section \<open>The store: auxiliary facts\<close>

lemma readInsight_SomeD:
  "readInsight h a = Some ins \<Longrightarrow> a < length h \<and> h ! a = InsightCell ins"
  by (auto simp: readInsight_def readCell_def split: if_splits option.splits cell.splits)

lemma readStrArray_SomeD:
  "readStrArray h a = Some xs \<Longrightarrow> a < length h \<and> h ! a = StrArrayCell xs"
  by (auto simp: readStrArray_def readCell_def split: if_splits option.splits cell.splits)

lemma readRefArray_SomeD:
  "readRefArray h a = Some xs \<Longrightarrow> a < length h \<and> h ! a = RefArrayCell xs"
  by (auto simp: readRefArray_def readCell_def split: if_splits option.splits cell.splits)

lemma readCell_append_old: "a < length h \<Longrightarrow> readCell (h @ xs) a = readCell h a"
  by (simp add: readCell_def nth_append)

lemma readInsight_append_old: "a < length h \<Longrightarrow> readInsight (h @ xs) a = readInsight h a"
  by (simp add: readInsight_def readCell_append_old)

lemma readStrArray_append_old: "a < length h \<Longrightarrow> readStrArray (h @ xs) a = readStrArray h a"
  by (simp add: readStrArray_def readCell_append_old)

lemma tagsInclude_append_old:
  assumes "readInsight h i = Some ins" and "readStrArray h (i_tags ins) = Some ts"
  shows "tagsInclude (h @ xs) i x = Some (includesArr ts x)"
  using assms readInsight_SomeD[OF assms(1)] readStrArray_SomeD[OF assms(2)]
  by (simp add: tagsInclude_def readInsight_append_old readStrArray_append_old)

lemma setImpact_new:
  "setImpact (h @ [c, CardCell bc]) (Suc (length h)) s
     = Some (h @ [c, CardCell (bc\<lparr>c_impact := s\<rparr>)])"
  by (simp add: setImpact_def readCard_def readCell_def writeCell_def nth_append list_update_append)

lemma unshiftCounters_new:
  "c_counters bc = length h \<Longrightarrow>
   unshiftCounters (h @ [StrArrayCell cs, CardCell bc]) (Suc (length h)) x
     = Some (h @ [StrArrayCell (x # cs), CardCell bc])"
  by (simp add: unshiftCounters_def readCard_def readStrArray_def readCell_def writeCell_def
        nth_append list_update_append unshift_def)

lemma toBattleCard_st_closed:
  assumes "readInsight h i = Some ins" and "readStrArray h (i_tags ins) = Some ts"
  shows "toBattleCard_st ls h i =
     Some (Suc (length h),
           h @ [StrArrayCell (c_counters (toBattleCard ls (viewOf ins ts))),
                CardCell \<lparr>c_headline = c_headline (toBattleCard ls (viewOf ins ts)),
                          c_impact = c_impact (toBattleCard ls (viewOf ins ts)),
                          c_proof = c_proof (toBattleCard ls (viewOf ins ts)),
                          c_counters = length h,
                          c_link = c_link (toBattleCard ls (viewOf ins ts)),
                          c_tags = i_tags ins\<rparr>])"
proof -
  have t: "\<And>xs x. tagsInclude (h @ xs) i x = Some (includesArr ts x)"
    by (rule tagsInclude_append_old[OF assms])
  show ?thesis
    unfolding toBattleCard_st_def
    by (simp add: assms alloc_def t setImpact_new unshiftCounters_new toBattleCard_def
          viewOf_def Let_def unshift_def)
qed

lemma insightView_SomeD:
  "insightView h a = Some v \<Longrightarrow>
     \<exists>ins ts. readInsight h a = Some ins \<and> readStrArray h (i_tags ins) = Some ts
               \<and> v = viewOf ins ts"
  by (auto simp: insightView_def split: Option.bind_splits)

lemma insightView_append_old:
  assumes "insightView h a = Some v"
  shows "insightView (h @ xs) a = Some v"
proof -
  from insightView_SomeD[OF assms] obtain ins ts where
    r: "readInsight h a = Some ins" "readStrArray h (i_tags ins) = Some ts" "v = viewOf ins ts"
    by blast
  from readInsight_SomeD[OF r(1)] readStrArray_SomeD[OF r(2)] r show ?thesis
    by (simp add: insightView_def readInsight_append_old readStrArray_append_old)
qed

lemma toBattleCard_st_view:
  assumes "insightView h i = Some v"
  shows "\<exists>b h'. toBattleCard_st ls h i = Some (b, h') \<and> cardView h' b = Some (toBattleCard ls v)
            \<and> (\<exists>new. h' = h @ new)"
proof -
  from insightView_SomeD[OF assms] obtain ins ts where
    r: "readInsight h i = Some ins" "readStrArray h (i_tags ins) = Some ts" "v = viewOf ins ts"
    by blast
  let ?h' = "h @ [StrArrayCell (c_counters (toBattleCard ls v)),
                CardCell \<lparr>c_headline = c_headline (toBattleCard ls v),
                          c_impact = c_impact (toBattleCard ls v),
                          c_proof = c_proof (toBattleCard ls v),
                          c_counters = length h,
                          c_link = c_link (toBattleCard ls v),
                          c_tags = i_tags ins\<rparr>]"
  have run: "toBattleCard_st ls h i = Some (Suc (length h), ?h')"
    using toBattleCard_st_closed[OF r(1) r(2), of ls] r(3) by simp
  have tg: "i_tags ins < length h" using readStrArray_SomeD[OF r(2)] by simp
  have t1: "readStrArray ?h' (i_tags ins) = Some ts"
    using tg r(2) by (simp add: readStrArray_append_old)
  have t2: "readStrArray ?h' (length h) = Some (c_counters (toBattleCard ls v))"
    by (simp add: readStrArray_def readCell_def nth_append)
  have t3: "readCard ?h' (Suc (length h))
              = Some \<lparr>c_headline = c_headline (toBattleCard ls v),
                          c_impact = c_impact (toBattleCard ls v),
                          c_proof = c_proof (toBattleCard ls v),
                          c_counters = length h,
                          c_link = c_link (toBattleCard ls v),
                          c_tags = i_tags ins\<rparr>"
    by (simp add: readCard_def readCell_def nth_append)
  have t4: "i_tags v = ts" using r(3) by (simp add: viewOf_def)
  have "cardView ?h' (Suc (length h)) = Some (toBattleCard ls v)"
    unfolding cardView_def t3 by (simp add: t1 t2 t4[symmetric])
  with run show ?thesis by blast
qed

lemma keepInsight_st_view:
  assumes "insightView h a = Some v"
  shows "keepInsight_st rt parse h s e c q a = Some (keepInsight rt parse s e c q v)"
proof -
  from insightView_SomeD[OF assms] obtain ins ts where
    r: "readInsight h a = Some ins" "readStrArray h (i_tags ins) = Some ts" "v = viewOf ins ts"
    by blast
  then show ?thesis by (simp add: keepInsight_st_def)
qed

lemma filterArr_view:
  assumes "list_all2 (\<lambda>a v. insightView h a = Some v) refs vs"
  shows "\<exists>kept. filterArr (keepInsight_st rt parse h s e c q) refs = Some kept
           \<and> list_all2 (\<lambda>a v. insightView h a = Some v) kept
                (filter (keepInsight rt parse s e c q) vs)"
  using assms
proof (induction refs vs rule: list_all2_induct)
  case Nil
  then show ?case by simp
next
  case (Cons a refs v vs)
  then obtain kept where
    k: "filterArr (keepInsight_st rt parse h s e c q) refs = Some kept"
       "list_all2 (\<lambda>a v. insightView h a = Some v) kept (filter (keepInsight rt parse s e c q) vs)"
    by blast
  from Cons.hyps(1) have "keepInsight_st rt parse h s e c q a = Some (keepInsight rt parse s e c q v)"
    by (rule keepInsight_st_view)
  with k Cons.hyps(1) show ?case by simp
qed

lemma filtered_st_view:
  assumes "readRefArray h arr = Some refs"
    and "list_all2 (\<lambda>a v. insightView h a = Some v) refs vs"
  shows "\<exists>kept. filtered_st rt parse h arr from to competitor query
                  = Some (length h, h @ [RefArrayCell kept])
           \<and> list_all2 (\<lambda>a v. insightView h a = Some v) kept
                (filtered rt parse vs from to competitor query)"
proof -
  let ?s = "if from \<noteq> [] then getTime parse from else NegInfinity"
  let ?e = "if to \<noteq> [] then getTime parse to else Infinity"
  from filterArr_view[OF assms(2), where rt = rt and parse = parse and s = ?s and e = ?e
         and c = competitor and q = "toLowerCase rt (trim rt query)"]
  obtain kept where
    k: "filterArr (keepInsight_st rt parse h ?s ?e competitor (toLowerCase rt (trim rt query))) refs
          = Some kept"
       "list_all2 (\<lambda>a v. insightView h a = Some v) kept
          (filter (keepInsight rt parse ?s ?e competitor (toLowerCase rt (trim rt query))) vs)"
    by blast
  have "filtered_st rt parse h arr from to competitor query = Some (length h, h @ [RefArrayCell kept])"
    unfolding filtered_st_def Let_def alloc_def by (simp add: assms(1) k(1))
  moreover have "list_all2 (\<lambda>a v. insightView h a = Some v) kept
                (filtered rt parse vs from to competitor query)"
    unfolding filtered_def Let_def by (rule k(2))
  ultimately show ?thesis by blast
qed


section \<open>Filter: malformed bounds\<close>

text \<open>
  C1, as the specification states it: a malformed (non-empty, unparseable) fromDate or
  toDate is treated as absent, so the result equals filtering with that bound omitted,
  and a malformed bound never makes the filter match nothing. The code does otherwise.
  With the bound \<^verbatim>\<open>not-a-date\<close> the time value of the bound is \<^verbatim>\<open>NaN\<close>, the
  comparison \<^verbatim>\<open>t >= start\<close> is false for the one record of the list, and the result
  is empty, while with the bound omitted the record is kept.
\<close>

theorem filtered_malformed_bound_counterexample:
  "sampleParse ''not-a-date'' = None
   \<and> filtered asciiRuntime sampleParse [sampleInsight] ''not-a-date'' '''' ''All'' '''' = []
   \<and> filtered asciiRuntime sampleParse [sampleInsight] '''' '''' ''All'' '''' = [sampleInsight]"
proof (intro conjI)
  show "sampleParse ''not-a-date'' = None" by code_simp
  show "filtered asciiRuntime sampleParse [sampleInsight] ''not-a-date'' '''' ''All'' '''' = []"
    by code_simp
  show "filtered asciiRuntime sampleParse [sampleInsight] '''' '''' ''All'' '''' = [sampleInsight]"
    by code_simp
qed

text \<open>
  C1, amended: for every insight list, a malformed (non-empty, unparseable) fromDate or
  toDate is not treated as absent; every range comparison with it is false and the
  filter returns the empty sequence. Only the empty bound string is the absent bound:
  with both bounds empty the range test asks no more of a record than that its own date
  has a time value.
\<close>

theorem filtered_malformed_bound:
  "((from \<noteq> [] \<and> parse from = None) \<or> (to \<noteq> [] \<and> parse to = None)
      \<longrightarrow> filtered rt parse insights from to competitor query = [])
   \<and> filtered rt parse insights [] [] competitor query
       = filter (\<lambda>i. parse (i_date i) \<noteq> None
                      \<and> (competitor = ''All'' \<or> i_competitor i = competitor)
                      \<and> (toLowerCase rt (trim rt query) = []
                          \<or> includesStr (toLowerCase rt (i_title i)) (toLowerCase rt (trim rt query))
                          \<or> includesStr (toLowerCase rt (i_summary i)) (toLowerCase rt (trim rt query))
                          \<or> includesStr (toLowerCase rt (join '' '' (i_tags i)))
                               (toLowerCase rt (trim rt query)))) insights"
proof (intro conjI impI)
  assume "(from \<noteq> [] \<and> parse from = None) \<or> (to \<noteq> [] \<and> parse to = None)"
  then show "filtered rt parse insights from to competitor query = []"
    by (auto simp: filtered_def Let_def getTime_def)
next
  have "\<And>i. (jsGe (getTime parse (i_date i)) NegInfinity \<and> jsLe (getTime parse (i_date i)) Infinity)
            = (parse (i_date i) \<noteq> None)"
    by (auto simp: getTime_def jsGe_def split: option.splits)
  then show "filtered rt parse insights [] [] competitor query
       = filter (\<lambda>i. parse (i_date i) \<noteq> None
                      \<and> (competitor = ''All'' \<or> i_competitor i = competitor)
                      \<and> (toLowerCase rt (trim rt query) = []
                          \<or> includesStr (toLowerCase rt (i_title i)) (toLowerCase rt (trim rt query))
                          \<or> includesStr (toLowerCase rt (i_summary i)) (toLowerCase rt (trim rt query))
                          \<or> includesStr (toLowerCase rt (join '' '' (i_tags i)))
                               (toLowerCase rt (trim rt query)))) insights"
    unfolding filtered_def Let_def
    by (intro filter_cong refl) (auto simp: keepInsight_def Let_def)
qed

theorem filtered_malformed_bound_witness:
  "(''not-a-date'' \<noteq> [] \<and> sampleParse ''not-a-date'' = None)
   \<and> filtered asciiRuntime sampleParse [sampleInsight] ''not-a-date'' ''2024-02-01'' ''All'' '''' = []"
proof -
  have h: "''not-a-date'' \<noteq> [] \<and> sampleParse ''not-a-date'' = None" by code_simp
  from filtered_malformed_bound[where ?from = "''not-a-date''" and parse = sampleParse
         and to = "''2024-02-01''" and rt = asciiRuntime and insights = "[sampleInsight]"
         and competitor = "''All''" and query = "''''"] h
  show ?thesis by blast
qed


section \<open>Severity: ordered rules\<close>

text \<open>
  C2: for every list of tags, \<^const>\<open>inferSeverity\<close> joins the tags with a space, folds
  the text to lower case with the runtime's \<^verbatim>\<open>toLowerCase\<close> and applies ordered
  rules, the first match winning: critical if the text contains one of pricing, price,
  bundle; otherwise watch if it contains one of ai, e-bidding, integration; otherwise
  info. So tags that match both the first and the second rule are critical. In
  particular, given that \<^verbatim>\<open>toLowerCase\<close> folds runs of ASCII characters where they
  stand, a tag that contains pricing in any casing, at any position of the list, makes
  the result critical, whatever else the tags match.
\<close>

theorem inferSeverity_ordered_rules:
  "inferSeverity rt tags =
     (if sublist ''pricing'' (toLowerCase rt (join '' '' tags))
         \<or> sublist ''price'' (toLowerCase rt (join '' '' tags))
         \<or> sublist ''bundle'' (toLowerCase rt (join '' '' tags)) then Critical
      else if sublist ''ai'' (toLowerCase rt (join '' '' tags))
         \<or> sublist ''e-bidding'' (toLowerCase rt (join '' '' tags))
         \<or> sublist ''integration'' (toLowerCase rt (join '' '' tags)) then Watch
      else Info)
   \<and> (\<forall>t u. foldsAscii (toLowerCase rt) \<and> t \<in> set tags \<and> sublist u t
              \<and> map asciiLowerChar u = ''pricing''
          \<longrightarrow> inferSeverity rt tags = Critical)"
proof (intro conjI allI impI)
  show "inferSeverity rt tags =
     (if sublist ''pricing'' (toLowerCase rt (join '' '' tags))
         \<or> sublist ''price'' (toLowerCase rt (join '' '' tags))
         \<or> sublist ''bundle'' (toLowerCase rt (join '' '' tags)) then Critical
      else if sublist ''ai'' (toLowerCase rt (join '' '' tags))
         \<or> sublist ''e-bidding'' (toLowerCase rt (join '' '' tags))
         \<or> sublist ''integration'' (toLowerCase rt (join '' '' tags)) then Watch
      else Info)"
    by (auto simp: inferSeverity_def Let_def includesStr_def)
next
  fix t u
  assume h: "foldsAscii (toLowerCase rt) \<and> t \<in> set tags \<and> sublist u t
              \<and> map asciiLowerChar u = ''pricing''"
  then have f: "foldsAscii (toLowerCase rt)" and tm: "t \<in> set tags"
    and su: "sublist u t" and mu: "map asciiLowerChar u = ''pricing''"
    by blast+
  have p: "\<forall>d\<in>set ''pricing''. (of_char d :: nat) < 128" by simp
  have asc: "\<forall>c\<in>set u. (of_char c :: nat) < 128"
  proof
    fix c assume "c \<in> set u"
    then have "asciiLowerChar c \<in> set (map asciiLowerChar u)" by simp
    then have "asciiLowerChar c \<in> set ''pricing''" by (simp only: mu)
    with p have "(of_char (asciiLowerChar c) :: nat) < 128" by blast
    then show "(of_char c :: nat) < 128" by (rule asciiLowerChar_ascii)
  qed
  have "sublist (map asciiLowerChar u) (toLowerCase rt (join '' '' tags))"
    by (rule foldsAscii_join[OF f tm su asc])
  then have "sublist ''pricing'' (toLowerCase rt (join '' '' tags))" by (simp only: mu)
  then show "inferSeverity rt tags = Critical"
    by (simp add: inferSeverity_def includesStr_def)
qed

theorem inferSeverity_ordered_rules_witness:
  "(foldsAscii (toLowerCase asciiRuntime)
      \<and> ''x PRICING y'' \<in> set [''AI'', ''Integration'', ''x PRICING y'']
      \<and> sublist ''PRICING'' ''x PRICING y''
      \<and> map asciiLowerChar ''PRICING'' = ''pricing'')
   \<and> sublist ''ai''
        (toLowerCase asciiRuntime (join '' '' [''AI'', ''Integration'', ''x PRICING y'']))
   \<and> inferSeverity asciiRuntime [''AI'', ''Integration'', ''x PRICING y''] = Critical"
proof -
  have f: "foldsAscii (toLowerCase asciiRuntime)"
    by (simp add: asciiRuntime_def foldsAscii_asciiToLowerCase)
  have m: "''x PRICING y'' \<in> set [''AI'', ''Integration'', ''x PRICING y'']" by simp
  have s: "sublist ''PRICING'' ''x PRICING y''" by code_simp
  have l: "map asciiLowerChar ''PRICING'' = ''pricing''" by code_simp
  have r2: "sublist ''ai''
        (toLowerCase asciiRuntime (join '' '' [''AI'', ''Integration'', ''x PRICING y'']))"
    by code_simp
  note rules = inferSeverity_ordered_rules[where rt = asciiRuntime
      and tags = "[''AI'', ''Integration'', ''x PRICING y'']", THEN conjunct2]
  note inst = rules[THEN spec[where x = "''x PRICING y''"], THEN spec[where x = "''PRICING''"]]
  have k: "inferSeverity asciiRuntime [''AI'', ''Integration'', ''x PRICING y''] = Critical"
    by (rule inst[THEN mp]) (intro conjI f m s l)
  from f m s l r2 k show ?thesis by - (intro conjI; assumption)
qed


section \<open>Filter: the three predicates\<close>

text \<open>
  C3, as the specification states it: the filter keeps exactly the records that satisfy
  the date, competitor and query predicates, the query being empty or a
  case-insensitive substring of the title, the summary or the space-joined tags. The
  code trims the query first: a query of one space is not empty and occurs in none of
  the three fields of the record below, yet the record is kept.
\<close>

theorem filtered_three_predicates_counterexample:
  "filtered asciiRuntime sampleParse [plainInsight] '''' '''' ''All'' '' '' = [plainInsight]
   \<and> spec_filter asciiRuntime sampleParse [plainInsight] '' '' ''All'' None None = []"
proof
  show "filtered asciiRuntime sampleParse [plainInsight] '''' '''' ''All'' '' '' = [plainInsight]"
    by code_simp
  show "spec_filter asciiRuntime sampleParse [plainInsight] '' '' ''All'' None None = []"
    by code_simp
qed

text \<open>
  C3, amended: for every sequence of insights and bounds that are each absent (empty)
  or well-formed, the filter returns the order-preserving subsequence of exactly those
  records satisfying all three predicates: date within the inclusive range (unbounded
  where a bound is absent; a record whose own date does not parse is in no range),
  competitor equal to All or exactly the record's competitor, and the query, with
  leading and trailing white space removed by the runtime's \<^verbatim>\<open>trim\<close>, empty (always
  passes) or matched case-insensitively (both sides folded by the runtime's
  \<^verbatim>\<open>toLowerCase\<close>, which maps the empty string to itself) as a substring of the
  title, the summary or the space-joined tags.
\<close>

theorem filtered_three_predicates:
  assumes "toLowerCase rt [] = []"
    and "from = [] \<or> parse from \<noteq> None" and "to = [] \<or> parse to \<noteq> None"
  shows "filtered rt parse insights from to competitor query
           = spec_filter rt parse insights (trim rt query) competitor
               (spec_bound parse from) (spec_bound parse to)
         \<and> subseq (filtered rt parse insights from to competitor query) insights"
proof
  have s: "(if from \<noteq> [] then getTime parse from else NegInfinity)
             = (case spec_bound parse from of None \<Rightarrow> NegInfinity | Some l \<Rightarrow> Finite l)"
    using assms(2) by (auto simp: spec_bound_def getTime_def split: option.splits)
  have e: "(if to \<noteq> [] then getTime parse to else Infinity)
             = (case spec_bound parse to of None \<Rightarrow> Infinity | Some u \<Rightarrow> Finite u)"
    using assms(3) by (auto simp: spec_bound_def getTime_def split: option.splits)
  show "filtered rt parse insights from to competitor query
           = spec_filter rt parse insights (trim rt query) competitor
               (spec_bound parse from) (spec_bound parse to)"
    unfolding filtered_def spec_filter_def Let_def
    by (rule filter_cong[OF refl]) (rule keepInsight_spec[OF assms(1) s e])
  show "subseq (filtered rt parse insights from to competitor query) insights"
    by (simp add: filtered_def Let_def)
qed

theorem filtered_three_predicates_witness:
  "toLowerCase asciiRuntime [] = []
   \<and> (''2024-01-01'' = [] \<or> sampleParse ''2024-01-01'' \<noteq> None)
   \<and> ('''' = [] \<or> sampleParse '''' \<noteq> None)
   \<and> filtered asciiRuntime sampleParse [sampleInsight, plainInsight] ''2024-01-01'' ''''
        ''All'' ''  survey ''
       = spec_filter asciiRuntime sampleParse [sampleInsight, plainInsight]
           (trim asciiRuntime ''  survey '') ''All''
           (spec_bound sampleParse ''2024-01-01'') (spec_bound sampleParse '''')
   \<and> subseq (filtered asciiRuntime sampleParse [sampleInsight, plainInsight] ''2024-01-01''
               '''' ''All'' ''  survey '') [sampleInsight, plainInsight]
   \<and> filtered asciiRuntime sampleParse [sampleInsight, plainInsight] ''2024-01-01'' ''''
        ''All'' ''  survey '' = [sampleInsight]"
proof -
  have z: "toLowerCase asciiRuntime [] = []" by code_simp
  have a: "''2024-01-01'' = [] \<or> sampleParse ''2024-01-01'' \<noteq> None" by code_simp
  have b: "'''' = [] \<or> sampleParse '''' \<noteq> None" by simp
  have c: "filtered asciiRuntime sampleParse [sampleInsight, plainInsight] ''2024-01-01'' ''''
             ''All'' ''  survey '' = [sampleInsight]"
    by code_simp
  from filtered_three_predicates[OF z a b, where insights = "[sampleInsight, plainInsight]"
         and competitor = "''All''" and query = "''  survey ''"] z a b c
  show ?thesis by blast
qed


section \<open>Battle cards: order of the counters\<close>

text \<open>
  C4: for every insight whose tags contain AI, Pricing and E-bidding,
  \<^const>\<open>toBattleCard\<close> applies the rules in the order AI, Pricing, E-bidding, each
  putting its message in front, so the counters are the E-bidding message, the Pricing
  message, the AI message and then the three base messages; when AI and Pricing are
  present and E-bidding is not, the counters are the Pricing message, the AI message
  and then the three base messages.
\<close>

theorem toBattleCard_counters_order:
  "(includesArr (i_tags i) ''AI'' \<and> includesArr (i_tags i) ''Pricing''
      \<and> includesArr (i_tags i) ''E-bidding''
      \<longrightarrow> c_counters (toBattleCard ls i)
            = [counterEbidding, counterPricing, counterAI] @ baseCounters)
   \<and> (includesArr (i_tags i) ''AI'' \<and> includesArr (i_tags i) ''Pricing''
      \<and> \<not> includesArr (i_tags i) ''E-bidding''
      \<longrightarrow> c_counters (toBattleCard ls i) = [counterPricing, counterAI] @ baseCounters)"
  by (simp add: toBattleCard_def Let_def unshift_def)

theorem toBattleCard_counters_order_witness:
  "(includesArr [''E-bidding'', ''Pricing'', ''AI''] ''AI''
      \<and> includesArr [''E-bidding'', ''Pricing'', ''AI''] ''Pricing''
      \<and> includesArr [''E-bidding'', ''Pricing'', ''AI''] ''E-bidding'')
   \<and> c_counters (toBattleCard (\<lambda>d. d) (plainInsight\<lparr>i_tags := [''E-bidding'', ''Pricing'', ''AI'']\<rparr>))
       = [''Position eligibility checks at invite/award as buyer efficiency.'',
          ''Offer side-by-side TCO with transparent tiers.'',
          ''Demo AI explainability and guardrails for regulated buyers.'',
          ''Emphasize time-to-value with prebuilt scorecards & fast onboarding.'',
          ''Show integration depth (RFP/award, APIs, export) with demos.'',
          ''Publish TCO story vs. bundle pricing.'']
   \<and> (includesArr [''AI'', ''Pricing''] ''AI'' \<and> includesArr [''AI'', ''Pricing''] ''Pricing''
        \<and> \<not> includesArr [''AI'', ''Pricing''] ''E-bidding'')
   \<and> c_counters (toBattleCard (\<lambda>d. d) (plainInsight\<lparr>i_tags := [''AI'', ''Pricing'']\<rparr>))
       = [''Offer side-by-side TCO with transparent tiers.'',
          ''Demo AI explainability and guardrails for regulated buyers.'',
          ''Emphasize time-to-value with prebuilt scorecards & fast onboarding.'',
          ''Show integration depth (RFP/award, APIs, export) with demos.'',
          ''Publish TCO story vs. bundle pricing.'']"
proof -
  have h3: "includesArr [''E-bidding'', ''Pricing'', ''AI''] ''AI''
      \<and> includesArr [''E-bidding'', ''Pricing'', ''AI''] ''Pricing''
      \<and> includesArr [''E-bidding'', ''Pricing'', ''AI''] ''E-bidding''"
    by (simp add: includesArr_def)
  have h2: "includesArr [''AI'', ''Pricing''] ''AI'' \<and> includesArr [''AI'', ''Pricing''] ''Pricing''
        \<and> \<not> includesArr [''AI'', ''Pricing''] ''E-bidding''"
    by (simp add: includesArr_def)
  from toBattleCard_counters_order[of "plainInsight\<lparr>i_tags := [''E-bidding'', ''Pricing'', ''AI'']\<rparr>"
         "\<lambda>d. d"] h3
  have c3: "c_counters (toBattleCard (\<lambda>d. d)
              (plainInsight\<lparr>i_tags := [''E-bidding'', ''Pricing'', ''AI'']\<rparr>))
       = [counterEbidding, counterPricing, counterAI] @ baseCounters"
    by simp
  from toBattleCard_counters_order[of "plainInsight\<lparr>i_tags := [''AI'', ''Pricing'']\<rparr>" "\<lambda>d. d"] h2
  have c2: "c_counters (toBattleCard (\<lambda>d. d) (plainInsight\<lparr>i_tags := [''AI'', ''Pricing'']\<rparr>))
       = [counterPricing, counterAI] @ baseCounters"
    by simp
  from h3 h2 c3 c2 show ?thesis
    by (simp add: counterEbidding_def counterPricing_def counterAI_def baseCounters_def)
qed


section \<open>Curation: one card per insight\<close>

text \<open>
  C5: curating keeps the invariant that the curated list holds at most one card per
  insight id. After curating an insight the list holds exactly one card with that id,
  the card just made; so curating the same id twice leaves one card for it, the second
  one and not the first.
\<close>

theorem curate_one_card_per_id:
  "(distinct (map c_id prev) \<longrightarrow> distinct (map c_id (curate ls i prev)))
   \<and> filter (\<lambda>x. c_id x = i_id i) (curate ls i prev)
       = [battleCard.extend (toBattleCard ls i) (curatedCard.fields (i_id i) (i_competitor i))]
   \<and> (i_id i2 = i_id i1 \<longrightarrow>
        filter (\<lambda>x. c_id x = i_id i1) (curate ls i2 (curate ls i1 prev))
          = [battleCard.extend (toBattleCard ls i2)
               (curatedCard.fields (i_id i2) (i_competitor i2))])"
proof (intro conjI impI)
  assume "distinct (map c_id prev)"
  then show "distinct (map c_id (curate ls i prev))"
    by (auto simp: curate_def Let_def distinct_map_filter)
next
  show "filter (\<lambda>x. c_id x = i_id i) (curate ls i prev)
       = [battleCard.extend (toBattleCard ls i) (curatedCard.fields (i_id i) (i_competitor i))]"
    by (rule curate_filter_own_id)
next
  assume "i_id i2 = i_id i1"
  then have "filter (\<lambda>x. c_id x = i_id i1) (curate ls i2 (curate ls i1 prev))
     = filter (\<lambda>x. c_id x = i_id i2) (curate ls i2 (curate ls i1 prev))" by simp
  then show "filter (\<lambda>x. c_id x = i_id i1) (curate ls i2 (curate ls i1 prev))
          = [battleCard.extend (toBattleCard ls i2)
               (curatedCard.fields (i_id i2) (i_competitor i2))]"
    by (simp only: curate_filter_own_id)
qed

theorem curate_one_card_per_id_witness:
  "distinct (map c_id ([] :: curatedCardV list))
   \<and> distinct (map c_id (curate (\<lambda>d. d) sampleInsight []))
   \<and> i_id (plainInsight\<lparr>i_title := ''Second''\<rparr>) = i_id plainInsight
   \<and> map c_headline (filter (\<lambda>x. c_id x = i_id plainInsight)
          (curate (\<lambda>d. d) (plainInsight\<lparr>i_title := ''Second''\<rparr>)
             (curate (\<lambda>d. d) plainInsight []))) = [''Avetta: Second'']"
proof -
  have d0: "distinct (map c_id ([] :: curatedCardV list))" by simp
  have e: "i_id (plainInsight\<lparr>i_title := ''Second''\<rparr>) = i_id plainInsight" by simp
  have h: "c_headline (battleCard.extend (toBattleCard (\<lambda>d. d) (plainInsight\<lparr>i_title := ''Second''\<rparr>))
               (curatedCard.fields (i_id (plainInsight\<lparr>i_title := ''Second''\<rparr>))
                  (i_competitor (plainInsight\<lparr>i_title := ''Second''\<rparr>)))) = ''Avetta: Second''"
    by code_simp
  note t = curate_one_card_per_id[where prev = "[]"
              and ls = "\<lambda>d. d" and i = sampleInsight
              and ?i2.0 = "plainInsight\<lparr>i_title := ''Second''\<rparr>" and ?i1.0 = plainInsight]
  from t d0 have d1: "distinct (map c_id (curate (\<lambda>d. d) sampleInsight []))"
    by blast
  from t e have "filter (\<lambda>x. c_id x = i_id plainInsight)
          (curate (\<lambda>d. d) (plainInsight\<lparr>i_title := ''Second''\<rparr>)
             (curate (\<lambda>d. d) plainInsight []))
     = [battleCard.extend (toBattleCard (\<lambda>d. d) (plainInsight\<lparr>i_title := ''Second''\<rparr>))
               (curatedCard.fields (i_id (plainInsight\<lparr>i_title := ''Second''\<rparr>))
                  (i_competitor (plainInsight\<lparr>i_title := ''Second''\<rparr>)))]" by blast
  with h have m: "map c_headline (filter (\<lambda>x. c_id x = i_id plainInsight)
          (curate (\<lambda>d. d) (plainInsight\<lparr>i_title := ''Second''\<rparr>)
             (curate (\<lambda>d. d) plainInsight []))) = [''Avetta: Second'']" by simp
  from d0 d1 e m show ?thesis by blast
qed


section \<open>Filter: idempotence\<close>

text \<open>
  C6: for every query, competitor, fromDate and toDate, the filter is idempotent:
  filtering its own result with the same parameters returns the same sequence.
\<close>

theorem filtered_idempotent:
  "filtered rt parse (filtered rt parse insights from to competitor query) from to competitor query
     = filtered rt parse insights from to competitor query"
  by (simp add: filtered_def Let_def)

theorem filtered_idempotent_witness:
  "filtered asciiRuntime sampleParse
     (filtered asciiRuntime sampleParse [sampleInsight, plainInsight] ''2024-01-01'' '''' ''All'' ''survey'')
     ''2024-01-01'' '''' ''All'' ''survey''
   = filtered asciiRuntime sampleParse [sampleInsight, plainInsight] ''2024-01-01'' '''' ''All'' ''survey''
   \<and> filtered asciiRuntime sampleParse [sampleInsight, plainInsight] ''2024-01-01'' '''' ''All'' ''survey''
       = [sampleInsight]"
proof -
  have c: "filtered asciiRuntime sampleParse [sampleInsight, plainInsight] ''2024-01-01'' '''' ''All''
             ''survey'' = [sampleInsight]"
    by code_simp
  from filtered_idempotent[where rt = asciiRuntime and parse = sampleParse
         and insights = "[sampleInsight, plainInsight]" and ?from = "''2024-01-01''"
         and to = "''''" and competitor = "''All''" and query = "''survey''"] c
  show ?thesis by blast
qed


section \<open>Battle cards: totality and determinism\<close>

text \<open>
  C7: \<^verbatim>\<open>toBattleCard\<close> is total on valid insights and deterministic. In the store:
  whenever an address denotes an insight, the call returns (no \<^verbatim>\<open>TypeError\<close>), and
  two calls on insights that are equal field by field, in whatever stores and at
  whatever addresses, return cards that are equal field by field (headline, impact,
  proof, counters in the same order, link and tags), namely the card that
  \<^const>\<open>toBattleCard\<close> computes from the insight's value.
\<close>

theorem toBattleCard_total_deterministic:
  assumes "insightView h i = Some v" and "insightView h' i' = Some v"
  shows "\<exists>b hb b' hb'. toBattleCard_st ls h i = Some (b, hb)
            \<and> toBattleCard_st ls h' i' = Some (b', hb')
            \<and> cardView hb b = Some (toBattleCard ls v)
            \<and> cardView hb' b' = Some (toBattleCard ls v)"
  using toBattleCard_st_view[OF assms(1), of ls] toBattleCard_st_view[OF assms(2), of ls]
  by blast

theorem toBattleCard_total_deterministic_witness:
  "insightView sampleHeap 1 = Some (viewOf (sampleObject 0) [''AI'', ''Pricing''])
   \<and> insightView sampleHeap 3 = Some (viewOf (sampleObject 0) [''AI'', ''Pricing''])
   \<and> (\<exists>b hb b' hb'. toBattleCard_st (\<lambda>d. d) sampleHeap 1 = Some (b, hb)
          \<and> toBattleCard_st (\<lambda>d. d) sampleHeap 3 = Some (b', hb')
          \<and> cardView hb b
              = Some (toBattleCard (\<lambda>d. d) (viewOf (sampleObject 0) [''AI'', ''Pricing'']))
          \<and> cardView hb' b'
              = Some (toBattleCard (\<lambda>d. d) (viewOf (sampleObject 0) [''AI'', ''Pricing''])))"
proof -
  have a: "insightView sampleHeap 1 = Some (viewOf (sampleObject 0) [''AI'', ''Pricing''])"
    by code_simp
  have b: "insightView sampleHeap 3 = Some (viewOf (sampleObject 0) [''AI'', ''Pricing''])"
    by code_simp
  from toBattleCard_total_deterministic[OF a b, of "\<lambda>d. d"] a b show ?thesis by blast
qed


section \<open>Digest\<close>




section \<open>No call writes to an insight\<close>

text \<open>
  C9: the filter and \<^verbatim>\<open>toBattleCard\<close> never mutate an insight. In the store: a call
  of \<^const>\<open>toBattleCard_st\<close> on an insight, and a call of \<^const>\<open>filtered_st\<close> on an
  array of insights, returns, and every cell that was in the store before the call holds
  afterwards what it held before: every insight object, with each of its fields, and
  every tags array. What the calls write, they write to cells they have allocated.
\<close>

theorem calls_leave_insights_unchanged:
  "(insightView h i = Some v \<longrightarrow>
      (\<exists>b h'. toBattleCard_st ls h i = Some (b, h')
         \<and> (\<forall>a<length h. readCell h' a = readCell h a)
         \<and> (\<forall>a w. insightView h a = Some w \<longrightarrow> insightView h' a = Some w)))
   \<and> (readRefArray h arr = Some refs \<and> list_all2 (\<lambda>a v. insightView h a = Some v) refs vs \<longrightarrow>
      (\<exists>r h'. filtered_st rt parse h arr from to competitor query = Some (r, h')
         \<and> (\<forall>a<length h. readCell h' a = readCell h a)
         \<and> (\<forall>a w. insightView h a = Some w \<longrightarrow> insightView h' a = Some w)))"
proof (intro conjI impI)
  assume "insightView h i = Some v"
  from toBattleCard_st_view[OF this, of ls] obtain b h' new where
    "toBattleCard_st ls h i = Some (b, h')" "h' = h @ new" by blast
  then show "\<exists>b h'. toBattleCard_st ls h i = Some (b, h')
         \<and> (\<forall>a<length h. readCell h' a = readCell h a)
         \<and> (\<forall>a w. insightView h a = Some w \<longrightarrow> insightView h' a = Some w)"
    by (auto simp: readCell_append_old insightView_append_old)
next
  assume "readRefArray h arr = Some refs \<and> list_all2 (\<lambda>a v. insightView h a = Some v) refs vs"
  then have a: "readRefArray h arr = Some refs"
    and b: "list_all2 (\<lambda>a v. insightView h a = Some v) refs vs" by simp_all
  from filtered_st_view[OF a b, where rt = rt and parse = parse and ?from = "from"
         and to = to and competitor = competitor and query = query] obtain kept where
    "filtered_st rt parse h arr from to competitor query = Some (length h, h @ [RefArrayCell kept])"
    by blast
  then show "\<exists>r h'. filtered_st rt parse h arr from to competitor query = Some (r, h')
         \<and> (\<forall>a<length h. readCell h' a = readCell h a)
         \<and> (\<forall>a w. insightView h a = Some w \<longrightarrow> insightView h' a = Some w)"
    by (auto simp: readCell_append_old insightView_append_old)
qed

theorem calls_leave_insights_unchanged_witness:
  "insightView sampleHeap 1 = Some (viewOf (sampleObject 0) [''AI'', ''Pricing''])
   \<and> (\<exists>b h'. toBattleCard_st (\<lambda>d. d) sampleHeap 1 = Some (b, h')
         \<and> readCell h' 0 = readCell sampleHeap 0 \<and> readCell h' 1 = readCell sampleHeap 1
         \<and> insightView h' 1 = Some (viewOf (sampleObject 0) [''AI'', ''Pricing'']))
   \<and> readRefArray sampleHeap 4 = Some [1, 3]
   \<and> list_all2 (\<lambda>a v. insightView sampleHeap a = Some v) [1, 3]
        [viewOf (sampleObject 0) [''AI'', ''Pricing''],
         viewOf (sampleObject 0) [''AI'', ''Pricing'']]
   \<and> (\<exists>r h'. filtered_st asciiRuntime sampleParse sampleHeap 4 ''2024-01-01'' '''' ''Avetta'' ''askava''
                 = Some (r, h')
         \<and> readCell h' 0 = readCell sampleHeap 0 \<and> readCell h' 1 = readCell sampleHeap 1
         \<and> insightView h' 1 = Some (viewOf (sampleObject 0) [''AI'', ''Pricing'']))"
proof -
  have v1: "insightView sampleHeap 1 = Some (viewOf (sampleObject 0) [''AI'', ''Pricing''])"
    by code_simp
  have r: "readRefArray sampleHeap 4 = Some [1, 3]" by code_simp
  have l: "list_all2 (\<lambda>a v. insightView sampleHeap a = Some v) [1, 3]
        [viewOf (sampleObject 0) [''AI'', ''Pricing''],
         viewOf (sampleObject 0) [''AI'', ''Pricing'']]"
    by code_simp
  have n: "(0::nat) < length sampleHeap" "(1::nat) < length sampleHeap"
    by (simp_all add: sampleHeap_def)
  note t = calls_leave_insights_unchanged[where h = sampleHeap and i = 1
      and v = "viewOf (sampleObject 0) [''AI'', ''Pricing'']" and ls = "\<lambda>d. d"
      and arr = 4 and refs = "[1, 3]"
      and vs = "[viewOf (sampleObject 0) [''AI'', ''Pricing''],
                 viewOf (sampleObject 0) [''AI'', ''Pricing'']]"
      and rt = asciiRuntime and parse = sampleParse and ?from = "''2024-01-01''"
      and to = "''''"
      and competitor = "''Avetta''" and query = "''askava''"]
  from t v1 n have p1: "\<exists>b h'. toBattleCard_st (\<lambda>d. d) sampleHeap 1 = Some (b, h')
         \<and> readCell h' 0 = readCell sampleHeap 0 \<and> readCell h' 1 = readCell sampleHeap 1
         \<and> insightView h' 1 = Some (viewOf (sampleObject 0) [''AI'', ''Pricing''])"
    by blast
  from t r l v1 n
  have p2: "\<exists>r h'. filtered_st asciiRuntime sampleParse sampleHeap 4 ''2024-01-01'' '''' ''Avetta'' ''askava''
                 = Some (r, h')
         \<and> readCell h' 0 = readCell sampleHeap 0 \<and> readCell h' 1 = readCell sampleHeap 1
         \<and> insightView h' 1 = Some (viewOf (sampleObject 0) [''AI'', ''Pricing''])"
    by blast
  from v1 p1 r l p2 show ?thesis by blast
qed


section \<open>Battle cards: the tag tests are exact\<close>

text \<open>
  C10: the augmentation rules test the tags by exact, case-sensitive membership, unlike
  the severity rules. For every insight none of whose tags is exactly AI, Pricing or
  E-bidding (the words may occur in another casing, or inside a longer tag),
  \<^const>\<open>toBattleCard\<close> applies no rule and returns the base card: the default impact and
  exactly the three base counters. Conversely the base card is returned only then.
\<close>

theorem toBattleCard_exact_tags:
  "(\<not> includesArr (i_tags i) ''AI'' \<and> \<not> includesArr (i_tags i) ''Pricing''
      \<and> \<not> includesArr (i_tags i) ''E-bidding'')
   = (toBattleCard ls i =
        \<lparr>c_headline = i_competitor i @ '': '' @ i_title i,
         c_impact = impactDefault,
         c_proof = ''Source: '' @ i_sourceName i @ '' '' @ bullet @ '' '' @ ls (i_date i),
         c_counters = baseCounters,
         c_link = i_sourceUrl i,
         c_tags = i_tags i\<rparr>)"
proof
  assume "\<not> includesArr (i_tags i) ''AI'' \<and> \<not> includesArr (i_tags i) ''Pricing''
      \<and> \<not> includesArr (i_tags i) ''E-bidding''"
  then show "toBattleCard ls i =
        \<lparr>c_headline = i_competitor i @ '': '' @ i_title i,
         c_impact = impactDefault,
         c_proof = ''Source: '' @ i_sourceName i @ '' '' @ bullet @ '' '' @ ls (i_date i),
         c_counters = baseCounters,
         c_link = i_sourceUrl i,
         c_tags = i_tags i\<rparr>"
    by (simp add: toBattleCard_def Let_def)
next
  assume eq: "toBattleCard ls i =
        \<lparr>c_headline = i_competitor i @ '': '' @ i_title i,
         c_impact = impactDefault,
         c_proof = ''Source: '' @ i_sourceName i @ '' '' @ bullet @ '' '' @ ls (i_date i),
         c_counters = baseCounters,
         c_link = i_sourceUrl i,
         c_tags = i_tags i\<rparr>"
  have len: "length baseCounters = 3" by (simp add: baseCounters_def)
  have cnt: "length (c_counters (toBattleCard ls i))
          = 3 + (if includesArr (i_tags i) ''AI'' then 1 else 0)
              + (if includesArr (i_tags i) ''Pricing'' then 1 else 0)
              + (if includesArr (i_tags i) ''E-bidding'' then 1 else 0)"
    by (simp add: toBattleCard_def Let_def unshift_def len)
  have "c_counters (toBattleCard ls i) = baseCounters"
    by (subst eq) simp
  then have "length (c_counters (toBattleCard ls i)) = 3" using len by simp
  with cnt show "\<not> includesArr (i_tags i) ''AI'' \<and> \<not> includesArr (i_tags i) ''Pricing''
      \<and> \<not> includesArr (i_tags i) ''E-bidding''"
    by (simp split: if_splits)
qed

theorem toBattleCard_exact_tags_witness:
  "(\<not> includesArr [''ai'', ''PRICING'', ''e-bidding'', ''AI tools''] ''AI''
      \<and> \<not> includesArr [''ai'', ''PRICING'', ''e-bidding'', ''AI tools''] ''Pricing''
      \<and> \<not> includesArr [''ai'', ''PRICING'', ''e-bidding'', ''AI tools''] ''E-bidding'')
   \<and> c_impact (toBattleCard (\<lambda>d. d)
        (plainInsight\<lparr>i_tags := [''ai'', ''PRICING'', ''e-bidding'', ''AI tools'']\<rparr>))
       = ''Raises buyer expectations for analytics clarity and workflow fit.''
   \<and> c_counters (toBattleCard (\<lambda>d. d)
        (plainInsight\<lparr>i_tags := [''ai'', ''PRICING'', ''e-bidding'', ''AI tools'']\<rparr>))
       = [''Emphasize time-to-value with prebuilt scorecards & fast onboarding.'',
          ''Show integration depth (RFP/award, APIs, export) with demos.'',
          ''Publish TCO story vs. bundle pricing.'']
   \<and> inferSeverity asciiRuntime [''ai'', ''PRICING'', ''e-bidding'', ''AI tools''] = Critical"
proof -
  let ?i = "plainInsight\<lparr>i_tags := [''ai'', ''PRICING'', ''e-bidding'', ''AI tools'']\<rparr>"
  have h: "\<not> includesArr (i_tags ?i) ''AI'' \<and> \<not> includesArr (i_tags ?i) ''Pricing''
      \<and> \<not> includesArr (i_tags ?i) ''E-bidding''"
    by (simp add: includesArr_def)
  from toBattleCard_exact_tags[of ?i "\<lambda>d. d"] h
  have e: "toBattleCard (\<lambda>d. d) ?i =
        \<lparr>c_headline = i_competitor ?i @ '': '' @ i_title ?i,
         c_impact = impactDefault,
         c_proof = ''Source: '' @ i_sourceName ?i @ '' '' @ bullet @ '' '' @ i_date ?i,
         c_counters = baseCounters,
         c_link = i_sourceUrl ?i,
         c_tags = i_tags ?i\<rparr>"
    by blast
  have s: "inferSeverity asciiRuntime [''ai'', ''PRICING'', ''e-bidding'', ''AI tools''] = Critical"
    by code_simp
  from h s show ?thesis
    unfolding e by (simp add: impactDefault_def baseCounters_def)
qed

end
